theory Spec2Isabelle
  imports Main "HOL-Library.Word"
begin

section \<open>The reachability engine (reachability.hpp)\<close>

text \<open>
  The engine is generic in the state type \<open>'s\<close> and the cost type \<open>'c\<close>. The equality of
  HOL stands for \<^verbatim>\<open>operator==\<close> of \<^verbatim>\<open>StateT\<close>, which both clients define as the comparison of
  all fields. A transition, a \<^verbatim>\<open>std::function<void(StateT &)>\<close> that mutates the copy it is
  given, is a function \<open>'s \<Rightarrow> 's\<close>; a container is a list.
\<close>

datatype search_order = breadth_first | depth_first

text \<open>
  \<^verbatim>\<open>struct trace_state { std::shared_ptr<trace_state> parent = nullptr; StateT self; }\<close>.
  A node is never written after \<^verbatim>\<open>make_shared\<close> built it, so the pointer to the parent is
  the parent's value; \<^verbatim>\<open>nullptr\<close> is \<open>None\<close>.
\<close>

datatype 's trace_state = Trace_state (parent: "'s trace_state option") (self: 's)

text \<open>The private members of \<^verbatim>\<open>state_space_t\<close>.\<close>

record ('s, 'c) state_space_t =
  initialState :: 's
  initialCost :: 'c
  transitionFunction :: "'s \<Rightarrow> ('s \<Rightarrow> 's) list"
  invariantFunction :: "'s \<Rightarrow> bool"
  useCost :: bool
  costFunction :: "'s \<Rightarrow> 'c \<Rightarrow> 'c"

text \<open>
  The two constructors. The one without a cost leaves \<^verbatim>\<open>_initialCost\<close> and
  \<^verbatim>\<open>_costFunction\<close> default-constructed (\<^verbatim>\<open>CostT = std::nullptr_t\<close>), the unit type here.
\<close>

definition state_space ::
  "'s \<Rightarrow> ('s \<Rightarrow> ('s \<Rightarrow> 's) list) \<Rightarrow> ('s \<Rightarrow> bool) \<Rightarrow> ('s, unit) state_space_t" where
  "state_space initial transitionF invariantF =
     \<lparr>initialState = initial, initialCost = (), transitionFunction = transitionF,
      invariantFunction = invariantF, useCost = False, costFunction = (\<lambda>s c. ())\<rparr>"

definition state_space_cost ::
  "'s \<Rightarrow> 'c \<Rightarrow> ('s \<Rightarrow> ('s \<Rightarrow> 's) list) \<Rightarrow> ('s \<Rightarrow> bool) \<Rightarrow> ('s \<Rightarrow> 'c \<Rightarrow> 'c)
     \<Rightarrow> ('s, 'c) state_space_t" where
  "state_space_cost initial cost0 transitionF invariantF costF =
     \<lparr>initialState = initial, initialCost = cost0, transitionFunction = transitionF,
      invariantFunction = invariantF, useCost = True, costFunction = costF\<rparr>"

text \<open>
  The local variables of \<^verbatim>\<open>solver\<close> and \<^verbatim>\<open>costSolver\<close> that live across iterations of the
  \<^verbatim>\<open>while\<close> loop. \<open>'w\<close> is the type of a frontier entry. The list \<open>traces\<close> is called
  \<^verbatim>\<open>solution\<close> in \<^verbatim>\<open>costSolver\<close>. The last two fields are not in the code; they log what the
  loop did: \<open>expanded\<close> holds the arguments of the calls of \<^verbatim>\<open>_transitionFunction\<close>, in
  order, and \<open>popped\<close> the nodes taken from the frontier, in order.
\<close>

record ('s, 'w) solver_state =
  passed :: "'s list"
  waiting :: "'w list"
  traces :: "'s list"
  containedSolution :: "'s list"
  result :: "'s list list"
  expanded :: "'s list"
  popped :: "'s trace_state list"

subsection \<open>Reconstruction of a path\<close>

text \<open>
  \<^verbatim>\<open>while (traceState->parent != nullptr) { traces.push_front(traceState->self);
  traceState = traceState->parent; }\<close>: the result is the final value of \<^verbatim>\<open>traceState\<close> and
  of \<^verbatim>\<open>traces\<close>.
\<close>

fun walk_up :: "'s trace_state \<Rightarrow> 's list \<Rightarrow> 's trace_state \<times> 's list" where
  "walk_up (Trace_state None s) tr = (Trace_state None s, tr)"
| "walk_up (Trace_state (Some p) s) tr = walk_up p (s # tr)"

text \<open>
  The body of \<^verbatim>\<open>if (isGoalState(currentState))\<close>: the walk, the push of the root's state, the
  copy of all of \<^verbatim>\<open>traces\<close> to the back of \<^verbatim>\<open>containedSolution\<close>, and the push of
  \<^verbatim>\<open>containedSolution\<close> on \<^verbatim>\<open>result\<close>. Neither list is cleared anywhere in the function.
  The first component is the value \<^verbatim>\<open>traceState\<close> has afterwards.
\<close>

definition record_goal ::
  "'s trace_state \<Rightarrow> ('s, 'w, 'z) solver_state_scheme
     \<Rightarrow> 's trace_state \<times> ('s, 'w, 'z) solver_state_scheme" where
  "record_goal traceState st =
     (case walk_up traceState (traces st) of
        (root, tr) \<Rightarrow>
          let tr' = self root # tr;
              cs = containedSolution st @ tr'
          in (root, st\<lparr>traces := tr', containedSolution := cs, result := result st @ [cs]\<rparr>))"

subsection \<open>The solver without cost\<close>

fun pop_waiting :: "search_order \<Rightarrow> 'w list \<Rightarrow> ('w \<times> 'w list) option" where
  "pop_waiting order [] = None"
| "pop_waiting breadth_first (x # xs) = Some (x, xs)"
| "pop_waiting depth_first (x # xs) = Some (last (x # xs), butlast (x # xs))"

text \<open>One iteration of \<^verbatim>\<open>for (auto transition: transitions)\<close>.\<close>

definition push_successor ::
  "('s, 'c) state_space_t \<Rightarrow> 's trace_state \<Rightarrow> 's \<Rightarrow> ('s \<Rightarrow> 's)
     \<Rightarrow> 's trace_state list \<Rightarrow> 's trace_state list" where
  "push_successor cfg traceState currentState transition w =
     (let successor = transition currentState
      in if invariantFunction cfg successor
         then w @ [Trace_state (Some traceState) successor]
         else w)"

text \<open>
  One iteration of \<^verbatim>\<open>while (!waiting.empty())\<close>. The parent given to the new nodes is
  \<^verbatim>\<open>traceState\<close> as the goal branch left it.
\<close>

definition solver_step ::
  "('s, 'c) state_space_t \<Rightarrow> ('s \<Rightarrow> bool) \<Rightarrow> search_order
     \<Rightarrow> ('s, 's trace_state) solver_state \<Rightarrow> ('s, 's trace_state) solver_state" where
  "solver_step cfg isGoalState order st =
     (case pop_waiting order (waiting st) of
        None \<Rightarrow> st
      | Some (node, w) \<Rightarrow>
          let currentState = self node;
              st1 = st\<lparr>waiting := w, popped := popped st @ [node]\<rparr>;
              (traceState, st2) =
                (if isGoalState currentState then record_goal node st1 else (node, st1))
          in if currentState \<in> set (passed st2) then st2
             else st2\<lparr>passed := passed st2 @ [currentState],
                      expanded := expanded st2 @ [currentState],
                      waiting := fold (push_successor cfg traceState currentState)
                                   (transitionFunction cfg currentState) (waiting st2)\<rparr>)"

definition solver_init :: "('s, 'c) state_space_t \<Rightarrow> ('s, 's trace_state) solver_state" where
  "solver_init cfg =
     \<lparr>passed = [], waiting = [Trace_state None (initialState cfg)], traces = [],
      containedSolution = [], result = [], expanded = [], popped = []\<rparr>"

text \<open>The loop may run forever on an infinite state space: then the value is \<open>None\<close>.\<close>

partial_function (option) solver_loop ::
  "('s, 'c) state_space_t \<Rightarrow> ('s \<Rightarrow> bool) \<Rightarrow> search_order
     \<Rightarrow> ('s, 's trace_state) solver_state \<Rightarrow> ('s, 's trace_state) solver_state option" where
  "solver_loop cfg isGoalState order st =
     (if waiting st = [] then Some st
      else solver_loop cfg isGoalState order (solver_step cfg isGoalState order st))"

declare solver_loop.simps [code]

definition solver ::
  "('s, 'c) state_space_t \<Rightarrow> ('s \<Rightarrow> bool) \<Rightarrow> search_order \<Rightarrow> 's list list option" where
  "solver cfg isGoalState order =
     map_option result (solver_loop cfg isGoalState order (solver_init cfg))"

text \<open>The states of the loop that a run from the initial state goes through.\<close>

inductive solver_reachable ::
  "('s, 'c) state_space_t \<Rightarrow> ('s \<Rightarrow> bool) \<Rightarrow> search_order
     \<Rightarrow> ('s, 's trace_state) solver_state \<Rightarrow> bool"
  for cfg isGoalState order where
  solver_start: "solver_reachable cfg isGoalState order (solver_init cfg)"
| solver_next: "solver_reachable cfg isGoalState order st \<Longrightarrow> waiting st \<noteq> []
     \<Longrightarrow> solver_reachable cfg isGoalState order (solver_step cfg isGoalState order st)"

subsection \<open>The solver with cost\<close>

text \<open>
  An entry of \<^verbatim>\<open>std::priority_queue<std::pair<CostT, std::shared_ptr<trace_state<StateT>>>>\<close>:
  the cost, and the pointer, which is the number of the \<^verbatim>\<open>make_shared\<close> call that built the
  node together with the node. The queue compares entries with \<^verbatim>\<open>operator<\<close> of
  \<^verbatim>\<open>std::pair\<close>: first by \<^verbatim>\<open>operator<\<close> of \<^verbatim>\<open>CostT\<close>, here \<open>lt\<close>, and, where neither cost is
  below the other, by the addresses in the two pointers. \<open>addr\<close> gives the address of the
  node built by each \<^verbatim>\<open>make_shared\<close> call; it is the allocator's choice, not the program's.
\<close>

type_synonym ('s, 'c) pq_entry = "'c \<times> nat \<times> 's trace_state"

definition pair_less ::
  "('c \<Rightarrow> 'c \<Rightarrow> bool) \<Rightarrow> (nat \<Rightarrow> nat) \<Rightarrow> ('s, 'c) pq_entry \<Rightarrow> ('s, 'c) pq_entry \<Rightarrow> bool" where
  "pair_less lt addr x y =
     (lt (fst x) (fst y) \<or> (\<not> lt (fst y) (fst x) \<and> addr (fst (snd x)) < addr (fst (snd y))))"

text \<open>
  \<^verbatim>\<open>top()\<close> of a \<^verbatim>\<open>std::priority_queue\<close> with the default \<^verbatim>\<open>std::less\<close> is a greatest entry.
  The queue is kept as the list of its entries and \<open>pq_max\<close> scans it for the greatest;
  where the comparison is a strict weak order and no two entries are equivalent (the
  addresses of two live nodes differ), this is the entry the heap has at its front.
\<close>

fun pq_max :: "('a \<Rightarrow> 'a \<Rightarrow> bool) \<Rightarrow> 'a \<Rightarrow> 'a list \<Rightarrow> 'a" where
  "pq_max cmp m [] = m"
| "pq_max cmp m (x # xs) = pq_max cmp (if cmp m x then x else m) xs"

fun pq_pop :: "('a \<Rightarrow> 'a \<Rightarrow> bool) \<Rightarrow> 'a list \<Rightarrow> ('a \<times> 'a list) option" where
  "pq_pop cmp [] = None"
| "pq_pop cmp (x # xs) = (let m = pq_max cmp x xs in Some (m, remove1 m (x # xs)))"

record ('s, 'w) cost_solver_state = "('s, 'w) solver_state" +
  allocated :: nat

text \<open>One iteration of \<^verbatim>\<open>for (auto transition: transitions)\<close> of \<^verbatim>\<open>costSolver\<close>.\<close>

definition push_cost_successor ::
  "('s, 'c) state_space_t \<Rightarrow> 's trace_state \<Rightarrow> 's \<Rightarrow> 'c \<Rightarrow> ('s \<Rightarrow> 's)
     \<Rightarrow> ('s, ('s, 'c) pq_entry) cost_solver_state \<Rightarrow> ('s, ('s, 'c) pq_entry) cost_solver_state" where
  "push_cost_successor cfg traceState currentState currentCost transition st =
     (let successor = transition currentState
      in if \<not> invariantFunction cfg successor then st
         else let newCost = costFunction cfg successor currentCost
              in st\<lparr>waiting := waiting st @
                       [(newCost, allocated st, Trace_state (Some traceState) successor)],
                    allocated := Suc (allocated st)\<rparr>)"

definition cost_step ::
  "('s, 'c) state_space_t \<Rightarrow> ('c \<Rightarrow> 'c \<Rightarrow> bool) \<Rightarrow> (nat \<Rightarrow> nat) \<Rightarrow> ('s \<Rightarrow> bool)
     \<Rightarrow> ('s, ('s, 'c) pq_entry) cost_solver_state \<Rightarrow> ('s, ('s, 'c) pq_entry) cost_solver_state" where
  "cost_step cfg lt addr isGoalState st =
     (case pq_pop (pair_less lt addr) (waiting st) of
        None \<Rightarrow> st
      | Some ((currentCost, ptr, node), w) \<Rightarrow>
          let currentState = self node;
              st1 = st\<lparr>waiting := w, popped := popped st @ [node]\<rparr>;
              (traceState, st2) =
                (if isGoalState currentState then record_goal node st1 else (node, st1))
          in if currentState \<in> set (passed st2) then st2
             else fold (push_cost_successor cfg traceState currentState currentCost)
                    (transitionFunction cfg currentState)
                    (st2\<lparr>passed := passed st2 @ [currentState],
                         expanded := expanded st2 @ [currentState]\<rparr>))"

definition cost_init ::
  "('s, 'c) state_space_t \<Rightarrow> ('s, ('s, 'c) pq_entry) cost_solver_state" where
  "cost_init cfg =
     \<lparr>passed = [], waiting = [(initialCost cfg, 0, Trace_state None (initialState cfg))],
      traces = [], containedSolution = [], result = [], expanded = [], popped = [],
      allocated = 1\<rparr>"

partial_function (option) cost_loop ::
  "('s, 'c) state_space_t \<Rightarrow> ('c \<Rightarrow> 'c \<Rightarrow> bool) \<Rightarrow> (nat \<Rightarrow> nat) \<Rightarrow> ('s \<Rightarrow> bool)
     \<Rightarrow> ('s, ('s, 'c) pq_entry) cost_solver_state
     \<Rightarrow> ('s, ('s, 'c) pq_entry) cost_solver_state option" where
  "cost_loop cfg lt addr isGoalState st =
     (if waiting st = [] then Some st
      else cost_loop cfg lt addr isGoalState (cost_step cfg lt addr isGoalState st))"

declare cost_loop.simps [code]

definition costSolver ::
  "('s, 'c) state_space_t \<Rightarrow> ('c \<Rightarrow> 'c \<Rightarrow> bool) \<Rightarrow> (nat \<Rightarrow> nat) \<Rightarrow> ('s \<Rightarrow> bool)
     \<Rightarrow> 's list list option" where
  "costSolver cfg lt addr isGoalState =
     map_option result (cost_loop cfg lt addr isGoalState (cost_init cfg))"

inductive cost_reachable ::
  "('s, 'c) state_space_t \<Rightarrow> ('c \<Rightarrow> 'c \<Rightarrow> bool) \<Rightarrow> (nat \<Rightarrow> nat) \<Rightarrow> ('s \<Rightarrow> bool)
     \<Rightarrow> ('s, ('s, 'c) pq_entry) cost_solver_state \<Rightarrow> bool"
  for cfg lt addr isGoalState where
  cost_start: "cost_reachable cfg lt addr isGoalState (cost_init cfg)"
| cost_next: "cost_reachable cfg lt addr isGoalState st \<Longrightarrow> waiting st \<noteq> []
     \<Longrightarrow> cost_reachable cfg lt addr isGoalState (cost_step cfg lt addr isGoalState st)"

subsection \<open>The entry point\<close>

definition check ::
  "('s, 'c) state_space_t \<Rightarrow> ('c \<Rightarrow> 'c \<Rightarrow> bool) \<Rightarrow> (nat \<Rightarrow> nat) \<Rightarrow> ('s \<Rightarrow> bool)
     \<Rightarrow> search_order \<Rightarrow> 's list list option" where
  "check cfg lt addr isGoalState order =
     (if useCost cfg then costSolver cfg lt addr isGoalState
      else solver cfg isGoalState order)"

section \<open>The goat, cabbage and wolf puzzle (crossing.cpp)\<close>

datatype pos_t = shore1 | travel | shore2

text \<open>\<^verbatim>\<open>std::array<pos_t, 3>\<close>, indexed by \<^verbatim>\<open>enum actor { cabbage, goat, wolf }\<close>.\<close>

type_synonym actors_t = "pos_t list"

definition cabbage :: nat where "cabbage = 0"
definition goat :: nat where "goat = 1"
definition wolf :: nat where "wolf = 2"

text \<open>The \<^verbatim>\<open>switch (actors[i])\<close> of \<^verbatim>\<open>transitions\<close>, for one \<open>i\<close>.\<close>

definition crossing_transitions_at :: "actors_t \<Rightarrow> nat \<Rightarrow> (actors_t \<Rightarrow> actors_t) list" where
  "crossing_transitions_at actors i =
     (case actors ! i of
        shore1 \<Rightarrow> [\<lambda>a. a[i := travel]]
      | travel \<Rightarrow> [\<lambda>a. a[i := shore1], \<lambda>a. a[i := shore2]]
      | shore2 \<Rightarrow> [\<lambda>a. a[i := travel]])"

definition crossing_transitions :: "actors_t \<Rightarrow> (actors_t \<Rightarrow> actors_t) list" where
  "crossing_transitions actors =
     concat (map (crossing_transitions_at actors) [0..<length actors])"

definition is_valid :: "actors_t \<Rightarrow> bool" where
  "is_valid actors =
     (if count_list actors travel > 1 then False
      else if actors ! goat = actors ! wolf \<and> actors ! cabbage = travel then False
      else if actors ! goat = actors ! cabbage \<and> actors ! wolf = travel then False
      else True)"

text \<open>The goal predicate that \<^verbatim>\<open>solve\<close> passes: all actors on the second shore.\<close>

definition crossing_goal :: "actors_t \<Rightarrow> bool" where
  "crossing_goal actors = (count_list actors shore2 = length actors)"

text \<open>
  The state space that \<^verbatim>\<open>solve\<close> builds, from a given initial position; \<^verbatim>\<open>actors_t{}\<close>
  is the position with every actor on the first shore.
\<close>

definition crossing_from :: "actors_t \<Rightarrow> (actors_t, unit) state_space_t" where
  "crossing_from initial = state_space initial crossing_transitions is_valid"

definition crossing_space :: "(actors_t, unit) state_space_t" where
  "crossing_space = crossing_from [shore1, shore1, shore1]"

section \<open>The family puzzle (family.cpp)\<close>

text \<open>
  The two anonymous enumerations \<^verbatim>\<open>{ shore1, onboard, shore2 }\<close> of \<^verbatim>\<open>person_t\<close> and
  \<^verbatim>\<open>{ shore1, travel, shore2 }\<close> of \<^verbatim>\<open>boat_t\<close>, with a prefix that tells them apart.
\<close>

datatype person_pos = p_shore1 | p_onboard | p_shore2

datatype boat_pos = b_shore1 | b_travel | b_shore2

record person_t =
  pos :: person_pos

record boat_t =
  pos :: boat_pos
  capacity :: "16 word"
  passengers :: "16 word"

record state_t =
  boat :: boat_t
  persons :: "person_t list"

definition mother :: nat where "mother = 0"
definition father :: nat where "father = 1"
definition daughter1 :: nat where "daughter1 = 2"
definition daughter2 :: nat where "daughter2 = 3"
definition son1 :: nat where "son1 = 4"
definition son2 :: nat where "son2 = 5"
definition policeman :: nat where "policeman = 6"
definition prisoner :: nat where "prisoner = 7"

text \<open>\<^verbatim>\<open>s.persons[i].pos\<close>.\<close>

definition pos_of :: "state_t \<Rightarrow> nat \<Rightarrow> person_pos" where
  "pos_of s i = person_t.pos (persons s ! i)"

text \<open>The lambdas that \<^verbatim>\<open>transitions\<close> returns.\<close>

definition start_travel :: "state_t \<Rightarrow> state_t" where
  "start_travel state = state\<lparr>boat := (boat state)\<lparr>boat_t.pos := b_travel\<rparr>\<rparr>"

definition arrive :: "boat_pos \<Rightarrow> person_pos \<Rightarrow> state_t \<Rightarrow> state_t" where
  "arrive bp pp state =
     state\<lparr>boat := (boat state)\<lparr>boat_t.pos := bp, passengers := 0\<rparr>,
           persons := map (\<lambda>p. if person_t.pos p = p_onboard then p\<lparr>person_t.pos := pp\<rparr> else p)
                        (persons state)\<rparr>"

definition board :: "nat \<Rightarrow> state_t \<Rightarrow> state_t" where
  "board i state =
     state\<lparr>persons := (persons state)[i := (persons state ! i)\<lparr>person_t.pos := p_onboard\<rparr>],
           boat := (boat state)\<lparr>passengers := passengers (boat state) + 1\<rparr>\<rparr>"

definition leave :: "nat \<Rightarrow> person_pos \<Rightarrow> state_t \<Rightarrow> state_t" where
  "leave i pp state =
     state\<lparr>persons := (persons state)[i := (persons state ! i)\<lparr>person_t.pos := pp\<rparr>],
           boat := (boat state)\<lparr>passengers := passengers (boat state) - 1\<rparr>\<rparr>"

text \<open>\<^verbatim>\<open>switch (s.boat.pos)\<close>.\<close>

definition boat_transitions :: "state_t \<Rightarrow> (state_t \<Rightarrow> state_t) list" where
  "boat_transitions s =
     (case boat_t.pos (boat s) of
        b_shore1 \<Rightarrow> (if passengers (boat s) > 0 then [start_travel] else [])
      | b_shore2 \<Rightarrow> (if passengers (boat s) > 0 then [start_travel] else [])
      | b_travel \<Rightarrow> [arrive b_shore1 p_shore1, arrive b_shore2 p_shore2])"

text \<open>\<^verbatim>\<open>switch (s.persons[i].pos)\<close>, for one \<open>i\<close>.\<close>

definition person_transitions :: "state_t \<Rightarrow> nat \<Rightarrow> (state_t \<Rightarrow> state_t) list" where
  "person_transitions s i =
     (case pos_of s i of
        p_shore1 \<Rightarrow> (if boat_t.pos (boat s) = b_shore1 then [board i] else [])
      | p_shore2 \<Rightarrow> (if boat_t.pos (boat s) = b_shore2 then [board i] else [])
      | p_onboard \<Rightarrow>
          (if boat_t.pos (boat s) = b_shore1 then [leave i p_shore1]
           else if boat_t.pos (boat s) = b_shore2 then [leave i p_shore2]
           else []))"

definition family_transitions :: "state_t \<Rightarrow> (state_t \<Rightarrow> state_t) list" where
  "family_transitions s =
     boat_transitions s @ concat (map (person_transitions s) [0..<length (persons s)])"

text \<open>
  The four branches on who is on board while the boat travels: the child \<open>c\<close> travels
  alone or with one of the other three children or the prisoner.
\<close>

definition child_alone :: "state_t \<Rightarrow> nat \<Rightarrow> nat \<Rightarrow> nat \<Rightarrow> nat \<Rightarrow> bool" where
  "child_alone s c x y z =
     (passengers (boat s) = 1 \<or> pos_of s x = p_onboard \<or> pos_of s y = p_onboard \<or>
      pos_of s z = p_onboard \<or> pos_of s prisoner = p_onboard)"

definition travel_alone :: "state_t \<Rightarrow> bool" where
  "travel_alone s =
     (if pos_of s daughter1 = p_onboard then child_alone s daughter1 daughter2 son1 son2
      else if pos_of s daughter2 = p_onboard then child_alone s daughter2 daughter1 son1 son2
      else if pos_of s son1 = p_onboard then child_alone s son1 daughter1 daughter2 son2
      else if pos_of s son2 = p_onboard then child_alone s son2 daughter1 daughter2 son1
      else False)"

definition pr_with_family :: "state_t \<Rightarrow> bool" where
  "pr_with_family s =
     (pos_of s prisoner \<noteq> pos_of s policeman \<and>
      (pos_of s daughter1 = pos_of s prisoner \<or> pos_of s daughter2 = pos_of s prisoner \<or>
       pos_of s son1 = pos_of s prisoner \<or> pos_of s son2 = pos_of s prisoner \<or>
       pos_of s mother = pos_of s prisoner \<or> pos_of s father = pos_of s prisoner))"

text \<open>The calls of \<^verbatim>\<open>log\<close> print and do not change the result.\<close>

definition river_crossing_valid :: "state_t \<Rightarrow> bool" where
  "river_crossing_valid s =
     (if passengers (boat s) > capacity (boat s) then False
      else if boat_t.pos (boat s) = b_travel \<and> travel_alone s then False
      else if boat_t.pos (boat s) = b_travel \<and> pr_with_family s then False
      else if boat_t.pos (boat s) = b_travel \<and> pos_of s prisoner = p_onboard \<and>
              passengers (boat s) < 2 then False
      else if pos_of s daughter1 = pos_of s father \<and> pos_of s daughter1 \<noteq> pos_of s mother
        then False
      else if pos_of s daughter2 = pos_of s father \<and> pos_of s daughter2 \<noteq> pos_of s mother
        then False
      else if pos_of s son1 = pos_of s mother \<and> pos_of s son1 \<noteq> pos_of s father then False
      else if pos_of s son2 = pos_of s mother \<and> pos_of s son2 \<noteq> pos_of s father then False
      else True)"

record cost_t =
  depth :: "64 word"
  noise :: "64 word"

text \<open>\<^verbatim>\<open>cost_t::operator<\<close>: the cost with the greater depth is the lesser one.\<close>

definition cost_less :: "cost_t \<Rightarrow> cost_t \<Rightarrow> bool" where
  "cost_less c other =
     (if depth c > depth other then True
      else if depth other > depth c then False
      else noise c > noise other)"

definition goal :: "state_t \<Rightarrow> bool" where
  "goal s = list_all (\<lambda>p. person_t.pos p = p_shore2) (persons s)"

text \<open>\<^verbatim>\<open>state_t{}\<close> and the state space that \<^verbatim>\<open>solve\<close> builds around a cost function.\<close>

definition family_initial :: state_t where
  "family_initial =
     \<lparr>boat = \<lparr>boat_t.pos = b_shore1, capacity = 2, passengers = 0\<rparr>,
      persons = replicate 8 \<lparr>person_t.pos = p_shore1\<rparr>\<rparr>"

definition family_space ::
  "(state_t \<Rightarrow> cost_t \<Rightarrow> cost_t) \<Rightarrow> (state_t, cost_t) state_space_t" where
  "family_space cost =
     state_space_cost family_initial \<lparr>depth = 0, noise = 0\<rparr> family_transitions
       river_crossing_valid cost"

text \<open>The first cost function of \<^verbatim>\<open>main\<close>.\<close>

definition depth_cost :: "'s \<Rightarrow> cost_t \<Rightarrow> cost_t" where
  "depth_cost state prev_cost = \<lparr>depth = depth prev_cost + 1, noise = noise prev_cost\<rparr>"

definition solve ::
  "(state_t \<Rightarrow> cost_t \<Rightarrow> cost_t) \<Rightarrow> (nat \<Rightarrow> nat) \<Rightarrow> state_t list list option" where
  "solve cost addr = check (family_space cost) cost_less addr goal breadth_first"

section \<open>Notions used to state and prove the properties\<close>

text \<open>The states on the way from the root to a node, and the root itself.\<close>

fun trace_path :: "'s trace_state \<Rightarrow> 's list" where
  "trace_path (Trace_state None s) = [s]"
| "trace_path (Trace_state (Some p) s) = trace_path p @ [s]"

fun trace_root :: "'s trace_state \<Rightarrow> 's trace_state" where
  "trace_root (Trace_state None s) = Trace_state None s"
| "trace_root (Trace_state (Some p) s) = trace_root p"

text \<open>
  The body of the loop after the pop, for a popped node and a remaining frontier: what
  \<open>solver_step\<close> does, and \<open>cost_step\<close> too when its frontier entries are read as
  their nodes (\<open>nodes_view\<close>). \<open>engine_reachable\<close> lets the pop take any node of the
  frontier, so it covers both solvers and both search orders.
\<close>

definition engine_post ::
  "('s, 'c) state_space_t \<Rightarrow> ('s \<Rightarrow> bool) \<Rightarrow> ('s, 's trace_state) solver_state
     \<Rightarrow> 's trace_state \<Rightarrow> 's trace_state list \<Rightarrow> ('s, 's trace_state) solver_state" where
  "engine_post cfg isGoalState st node w =
     (let currentState = self node;
          st1 = st\<lparr>waiting := w, popped := popped st @ [node]\<rparr>;
          (traceState, st2) =
            (if isGoalState currentState then record_goal node st1 else (node, st1))
      in if currentState \<in> set (passed st2) then st2
         else st2\<lparr>passed := passed st2 @ [currentState],
                  expanded := expanded st2 @ [currentState],
                  waiting := fold (push_successor cfg traceState currentState)
                               (transitionFunction cfg currentState) (waiting st2)\<rparr>)"

inductive engine_reachable ::
  "('s, 'c) state_space_t \<Rightarrow> ('s \<Rightarrow> bool) \<Rightarrow> ('s, 's trace_state) solver_state \<Rightarrow> bool"
  for cfg isGoalState where
  engine_start: "engine_reachable cfg isGoalState (solver_init cfg)"
| engine_next: "engine_reachable cfg isGoalState st \<Longrightarrow> node \<in> set (waiting st)
     \<Longrightarrow> set w \<subseteq> set (waiting st)
     \<Longrightarrow> engine_reachable cfg isGoalState (engine_post cfg isGoalState st node w)"

definition nodes_view ::
  "('s, ('s, 'c) pq_entry) cost_solver_state \<Rightarrow> ('s, 's trace_state) solver_state" where
  "nodes_view st =
     \<lparr>passed = passed st, waiting = map (\<lambda>e. snd (snd e)) (waiting st), traces = traces st,
      containedSolution = containedSolution st, result = result st, expanded = expanded st,
      popped = popped st\<rparr>"


text \<open>The paths of the popped nodes that satisfied the goal predicate, in the order of the pops.\<close>

definition goal_paths :: "('s \<Rightarrow> bool) \<Rightarrow> ('s, 'w, 'z) solver_state_scheme \<Rightarrow> 's list list" where
  "goal_paths isGoalState st = map trace_path (filter (\<lambda>n. isGoalState (self n)) (popped st))"

text \<open>Every state the loop holds anywhere.\<close>

definition engine_states :: "('s, 's trace_state) solver_state \<Rightarrow> 's set" where
  "engine_states st =
     set (passed st) \<union> (\<Union>n \<in> set (waiting st). set (trace_path n)) \<union> set (traces st) \<union>
     set (containedSolution st) \<union> (\<Union>p \<in> set (result st). set p) \<union> set (expanded st) \<union>
     (\<Union>n \<in> set (popped st). set (trace_path n))"


text \<open>
  The state of the loop after \<open>n\<close> iterations: of \<^verbatim>\<open>solver\<close> on the crossing puzzle, breadth
  first, and of \<^verbatim>\<open>costSolver\<close> on the family puzzle with the first cost function of \<^verbatim>\<open>main\<close>,
  every node at the address that is the number of its allocation.
\<close>

definition crossing_run :: "nat \<Rightarrow> (actors_t, actors_t trace_state) solver_state" where
  "crossing_run n =
     (solver_step crossing_space crossing_goal breadth_first ^^ n) (solver_init crossing_space)"

definition family_run :: "nat \<Rightarrow> (state_t, (state_t, cost_t) pq_entry) cost_solver_state" where
  "family_run n =
     (cost_step (family_space depth_cost) cost_less id goal ^^ n)
       (cost_init (family_space depth_cost))"

section \<open>Lemmas\<close>

lemma trace_path_nonempty [simp]: "trace_path n \<noteq> []"
  by (induction n rule: trace_path.induct) auto

lemma walk_up_eq: "walk_up n tr = (trace_root n, tl (trace_path n) @ tr)"
  by (induction n tr rule: walk_up.induct) auto

lemma self_trace_root: "self (trace_root n) = hd (trace_path n)"
  by (induction n rule: trace_root.induct) auto

lemma last_trace_path: "last (trace_path n) = self n"
  by (induction n rule: trace_path.induct) auto

lemma parent_trace_root: "parent (trace_root n) = None"
  by (induction n rule: trace_root.induct) auto

lemma trace_path_root_subset: "set (trace_path (trace_root n)) \<subseteq> set (trace_path n)"
  by (induction n rule: trace_root.induct) auto

lemma record_goal_eq:
  "record_goal n st =
     (trace_root n,
      st\<lparr>traces := trace_path n @ traces st,
         containedSolution := containedSolution st @ trace_path n @ traces st,
         result := result st @ [containedSolution st @ trace_path n @ traces st]\<rparr>)"
proof -
  have "hd (trace_path n) # tl (trace_path n) = trace_path n" by simp
  then show ?thesis
    by (simp add: record_goal_def walk_up_eq self_trace_root Let_def del: list.collapse hd_Cons_tl)
qed

lemma fold_push_successor:
  "fold (push_successor cfg ts cur) trs w =
     w @ map (Trace_state (Some ts)) (filter (invariantFunction cfg) (map (\<lambda>t. t cur) trs))"
  by (induction trs arbitrary: w) (auto simp: push_successor_def Let_def)

lemma pop_waiting_Some:
  "w \<noteq> [] \<Longrightarrow> \<exists>n r. pop_waiting order w = Some (n, r) \<and> n \<in> set w \<and> set r \<subseteq> set w \<and> length r < length w"
  by (cases w; cases order) (auto dest: in_set_butlastD)

lemma solver_step_engine:
  "pop_waiting order (waiting st) = Some (n, r) \<Longrightarrow>
   solver_step cfg g order st = engine_post cfg g st n r"
  by (simp add: solver_step_def engine_post_def)

lemma solver_reachable_engine:
  "solver_reachable cfg g order st \<Longrightarrow> engine_reachable cfg g st"
proof (induction rule: solver_reachable.induct)
  case solver_start
  show ?case by (rule engine_start)
next
  case (solver_next st)
  from pop_waiting_Some [OF solver_next.hyps(2)] obtain n r where
    pop: "pop_waiting order (waiting st) = Some (n, r)" and "n \<in> set (waiting st)"
      "set r \<subseteq> set (waiting st)" by blast
  then show ?case
    using solver_next.IH by (simp add: solver_step_engine [OF pop] engine_next)
qed

lemma pq_max_in: "pq_max cmp m xs \<in> set (m # xs)"
  by (induction xs arbitrary: m) auto

lemma pq_pop_Some:
  "q \<noteq> [] \<Longrightarrow> \<exists>e r. pq_pop cmp q = Some (e, r) \<and> e \<in> set q \<and> set r \<subseteq> set q \<and> length r < length q"
proof (cases q)
  case Nil
  assume "q \<noteq> []"
  with Nil show ?thesis by simp
next
  case (Cons x xs)
  let ?m = "pq_max cmp x xs"
  have m: "?m \<in> set q" using pq_max_in [of cmp x xs] Cons by simp
  then have "length (remove1 ?m q) < length q"
    by (simp add: length_remove1) (use Cons in auto)
  moreover have "set (remove1 ?m q) \<subseteq> set q" by (rule set_remove1_subset)
  ultimately show ?thesis using m Cons by (simp add: Let_def)
qed

lemma nodes_view_fold:
  "nodes_view (fold (push_cost_successor cfg ts cur c) trs st) =
     (nodes_view st)\<lparr>waiting := waiting (nodes_view st) @ map (Trace_state (Some ts))
        (filter (invariantFunction cfg) (map (\<lambda>t. t cur) trs))\<rparr>"
proof (induction trs arbitrary: st)
  case Nil
  show ?case by (simp add: nodes_view_def)
next
  case (Cons t trs)
  show ?case
    by (simp add: Cons.IH) (simp add: nodes_view_def push_cost_successor_def Let_def)
qed

lemma nodes_view_record_goal:
  "nodes_view (snd (record_goal n st)) = snd (record_goal n (nodes_view st))"
  "fst (record_goal n st) = trace_root n"
  by (simp_all add: record_goal_eq nodes_view_def)

lemma cost_step_engine:
  assumes "pq_pop (pair_less lt addr) (waiting st) = Some ((c, a, n), r)"
  shows "nodes_view (cost_step cfg lt addr g st) =
           engine_post cfg g (nodes_view st) n (map (\<lambda>e. snd (snd e)) r)"
  using assms
  by (simp add: cost_step_def engine_post_def record_goal_eq nodes_view_fold fold_push_successor Let_def)
    (simp add: nodes_view_def)

lemma cost_reachable_engine:
  "cost_reachable cfg lt addr g st \<Longrightarrow> engine_reachable cfg g (nodes_view st)"
proof (induction rule: cost_reachable.induct)
  case cost_start
  have "nodes_view (cost_init cfg) = solver_init cfg"
    by (simp add: nodes_view_def cost_init_def solver_init_def)
  then show ?case by (simp add: engine_start)
next
  case (cost_next st)
  from pq_pop_Some [OF cost_next.hyps(2)] obtain e r where
    pop: "pq_pop (pair_less lt addr) (waiting st) = Some (e, r)" and e: "e \<in> set (waiting st)"
    and r: "set r \<subseteq> set (waiting st)" by blast
  obtain c a n where e_eq: "e = (c, a, n)" by (cases e) auto
  have "n \<in> set (waiting (nodes_view st))"
    using e e_eq by (force simp: nodes_view_def)
  moreover have "set (map (\<lambda>e. snd (snd e)) r) \<subseteq> set (waiting (nodes_view st))"
    using r by (auto simp: nodes_view_def)
  ultimately have "engine_reachable cfg g (engine_post cfg g (nodes_view st) n (map (\<lambda>e. snd (snd e)) r))"
    using cost_next.IH by (rule engine_next [rotated])
  then show ?case using cost_step_engine [of lt addr st c a n r] pop e_eq by simp
qed

lemma engine_post_fields:
  "popped (engine_post cfg g st n w) = popped st @ [n]"
  "traces (engine_post cfg g st n w) = (if g (self n) then trace_path n @ traces st else traces st)"
  "containedSolution (engine_post cfg g st n w) =
     (if g (self n) then containedSolution st @ trace_path n @ traces st else containedSolution st)"
  "result (engine_post cfg g st n w) =
     (if g (self n) then result st @ [containedSolution st @ trace_path n @ traces st] else result st)"
  "passed (engine_post cfg g st n w) =
     (if self n \<in> set (passed st) then passed st else passed st @ [self n])"
  "expanded (engine_post cfg g st n w) =
     (if self n \<in> set (passed st) then expanded st else expanded st @ [self n])"
  "waiting (engine_post cfg g st n w) =
     (if self n \<in> set (passed st) then w
      else w @ map (Trace_state (Some (if g (self n) then trace_root n else n)))
             (filter (invariantFunction cfg) (map (\<lambda>t. t (self n)) (transitionFunction cfg (self n)))))"
  by (simp_all add: engine_post_def record_goal_eq fold_push_successor Let_def)

lemma engine_expanded_passed:
  "engine_reachable cfg g st \<Longrightarrow> expanded st = passed st \<and> distinct (passed st)"
  by (induction rule: engine_reachable.induct) (auto simp: solver_init_def engine_post_fields)

lemma engine_frontier_invariant:
  "engine_reachable cfg g st \<Longrightarrow>
   \<forall>n \<in> set (waiting st). n = Trace_state None (initialState cfg) \<or>
      (parent n \<noteq> None \<and> invariantFunction cfg (self n))"
  by (induction rule: engine_reachable.induct) (auto simp: solver_init_def engine_post_fields)

lemma engine_states_invariant:
  assumes "engine_reachable cfg g st" and "P (initialState cfg)"
    and step: "\<And>s t. P s \<Longrightarrow> t \<in> set (transitionFunction cfg s) \<Longrightarrow>
      invariantFunction cfg (t s) \<Longrightarrow> P (t s)"
  shows "\<forall>s \<in> engine_states st. P s"
  using assms(1)
proof (induction rule: engine_reachable.induct)
  case engine_start
  show ?case using assms(2) by (simp add: engine_states_def solver_init_def)
next
  case (engine_next st n w)
  let ?st' = "engine_post cfg g st n w"
  have ih: "\<And>s. s \<in> engine_states st \<Longrightarrow> P s" using engine_next.IH by blast
  have wait: "\<And>m s. m \<in> set (waiting st) \<Longrightarrow> s \<in> set (trace_path m) \<Longrightarrow> P s"
    by (rule ih) (auto simp: engine_states_def)
  have n: "\<And>s. s \<in> set (trace_path n) \<Longrightarrow> P s"
    using wait engine_next.hyps(2) by blast
  have "self n \<in> set (trace_path n)"
    using last_in_set [of "trace_path n"] by (simp add: last_trace_path)
  then have self: "P (self n)" by (rule n)
  have root: "\<And>s. s \<in> set (trace_path (trace_root n)) \<Longrightarrow> P s"
    using n trace_path_root_subset [of n] by blast
  have w: "\<And>m s. m \<in> set w \<Longrightarrow> s \<in> set (trace_path m) \<Longrightarrow> P s"
    using wait engine_next.hyps(3) by blast
  have succ: "\<And>t. t \<in> set (transitionFunction cfg (self n)) \<Longrightarrow>
      invariantFunction cfg (t (self n)) \<Longrightarrow> P (t (self n))"
    using step self by blast
  have p_passed: "\<And>s. s \<in> set (passed st) \<Longrightarrow> P s"
    and p_traces: "\<And>s. s \<in> set (traces st) \<Longrightarrow> P s"
    and p_contained: "\<And>s. s \<in> set (containedSolution st) \<Longrightarrow> P s"
    and p_result: "\<And>p s. p \<in> set (result st) \<Longrightarrow> s \<in> set p \<Longrightarrow> P s"
    and p_expanded: "\<And>s. s \<in> set (expanded st) \<Longrightarrow> P s"
    and p_popped: "\<And>m s. m \<in> set (popped st) \<Longrightarrow> s \<in> set (trace_path m) \<Longrightarrow> P s"
    using ih unfolding engine_states_def by blast+
  have 1: "\<forall>s \<in> set (passed ?st'). P s"
    using p_passed self by (simp add: engine_post_fields)
  have 2: "\<forall>s \<in> set (expanded ?st'). P s"
    using p_expanded self by (simp add: engine_post_fields)
  have 3: "\<forall>s \<in> set (traces ?st'). P s"
    using p_traces n by (auto simp: engine_post_fields)
  have 4: "\<forall>s \<in> set (containedSolution ?st'). P s"
    using p_traces p_contained n by (auto simp: engine_post_fields)
  have 5: "\<forall>p \<in> set (result ?st'). \<forall>s \<in> set p. P s"
    using p_traces p_contained p_result n by (auto simp: engine_post_fields)
  have 6: "\<forall>m \<in> set (popped ?st'). \<forall>s \<in> set (trace_path m). P s"
    using p_popped n by (auto simp: engine_post_fields)
  have 7: "\<forall>m \<in> set (waiting ?st'). \<forall>s \<in> set (trace_path m). P s"
  proof (cases "self n \<in> set (passed st)")
    case True
    then show ?thesis using w by (simp add: engine_post_fields)
  next
    case False
    define ts where "ts = (if g (self n) then trace_root n else n)"
    have ts: "\<And>s. s \<in> set (trace_path ts) \<Longrightarrow> P s"
      using n root by (cases "g (self n)") (simp_all add: ts_def)
    have wait': "waiting ?st' = w @ map (Trace_state (Some ts))
        (filter (invariantFunction cfg) (map (\<lambda>t. t (self n)) (transitionFunction cfg (self n))))"
      using False by (simp add: engine_post_fields ts_def)
    show ?thesis
    proof (intro ballI)
      fix m s
      assume m: "m \<in> set (waiting ?st')" and s: "s \<in> set (trace_path m)"
      from m wait' consider "m \<in> set w"
        | t where "t \<in> set (transitionFunction cfg (self n))" "invariantFunction cfg (t (self n))"
            "m = Trace_state (Some ts) (t (self n))"
        by auto
      then show "P s"
      proof cases
        case 1
        then show ?thesis using w s by blast
      next
        case 2
        with s have "s \<in> set (trace_path ts) \<or> s = t (self n)" by auto
        then show ?thesis using ts succ [OF 2(1,2)] by blast
      qed
    qed
  qed
  show ?case
    unfolding engine_states_def using 1 2 3 4 5 6 7 by blast
qed

lemma solver_loop_reachable:
  assumes "solver_loop cfg g order st = Some st'" and "solver_reachable cfg g order st"
  shows "solver_reachable cfg g order st' \<and> waiting st' = []"
proof -
  have "solver_reachable cfg g order st \<longrightarrow> solver_reachable cfg g order st' \<and> waiting st' = []"
  proof (rule solver_loop.raw_induct
      [where P = "\<lambda>cfg g order st st'. solver_reachable cfg g order st \<longrightarrow>
                    solver_reachable cfg g order st' \<and> waiting st' = []", OF _ assms(1)])
    fix loop cfg g order st st'
    assume ih: "\<And>cfg g order st st'. loop cfg g order st = Some st' \<Longrightarrow>
        solver_reachable cfg g order st \<longrightarrow> solver_reachable cfg g order st' \<and> waiting st' = []"
      and eq: "(if waiting st = [] then Some st
                else loop cfg g order (solver_step cfg g order st)) = Some st'"
    show "solver_reachable cfg g order st \<longrightarrow> solver_reachable cfg g order st' \<and> waiting st' = []"
    proof (cases "waiting st = []")
      case True
      with eq show ?thesis by simp
    next
      case False
      with eq have "loop cfg g order (solver_step cfg g order st) = Some st'" by simp
      from ih [OF this] False show ?thesis by (blast intro: solver_next)
    qed
  qed
  with assms(2) show ?thesis by blast
qed

lemma cost_loop_reachable:
  assumes "cost_loop cfg lt addr g st = Some st'" and "cost_reachable cfg lt addr g st"
  shows "cost_reachable cfg lt addr g st' \<and> waiting st' = []"
proof -
  have "cost_reachable cfg lt addr g st \<longrightarrow> cost_reachable cfg lt addr g st' \<and> waiting st' = []"
  proof (rule cost_loop.raw_induct
      [where P = "\<lambda>cfg lt addr g st st'. cost_reachable cfg lt addr g st \<longrightarrow>
                    cost_reachable cfg lt addr g st' \<and> waiting st' = []", OF _ assms(1)])
    fix loop cfg lt addr g st st'
    assume ih: "\<And>cfg lt addr g st st'. loop cfg lt addr g st = Some st' \<Longrightarrow>
        cost_reachable cfg lt addr g st \<longrightarrow> cost_reachable cfg lt addr g st' \<and> waiting st' = []"
      and eq: "(if waiting st = [] then Some st
                else loop cfg lt addr g (cost_step cfg lt addr g st)) = Some st'"
    show "cost_reachable cfg lt addr g st \<longrightarrow> cost_reachable cfg lt addr g st' \<and> waiting st' = []"
    proof (cases "waiting st = []")
      case True
      with eq show ?thesis by simp
    next
      case False
      with eq have "loop cfg lt addr g (cost_step cfg lt addr g st) = Some st'" by simp
      from ih [OF this] False show ?thesis by (blast intro: cost_next)
    qed
  qed
  with assms(2) show ?thesis by blast
qed

lemma nodes_view_simps:
  "passed (nodes_view st) = passed st" "expanded (nodes_view st) = expanded st"
  "result (nodes_view st) = result st" "popped (nodes_view st) = popped st"
  "traces (nodes_view st) = traces st" "containedSolution (nodes_view st) = containedSolution st"
  "waiting (nodes_view st) = map (\<lambda>e. snd (snd e)) (waiting st)"
  by (simp_all add: nodes_view_def)

lemma crossing_run_Suc:
  "crossing_run (Suc n) = solver_step crossing_space crossing_goal breadth_first (crossing_run n)"
  by (simp add: crossing_run_def)

lemma family_run_Suc:
  "family_run (Suc n) = cost_step (family_space depth_cost) cost_less id goal (family_run n)"
  by (simp add: family_run_def)

lemma crossing_run_reachable:
  "solver_reachable crossing_space crossing_goal breadth_first (crossing_run 3)"
proof -
  let ?R = "solver_reachable crossing_space crossing_goal breadth_first"
  have r0: "?R (crossing_run 0)" unfolding crossing_run_def funpow_0 by (rule solver_start)
  have "waiting (crossing_run 0) \<noteq> []" by code_simp
  from solver_next [OF r0 this] have r1: "?R (crossing_run (Suc 0))"
    by (simp only: crossing_run_Suc)
  have "waiting (crossing_run (Suc 0)) \<noteq> []" by code_simp
  from solver_next [OF r1 this] have r2: "?R (crossing_run (Suc (Suc 0)))"
    by (simp only: crossing_run_Suc)
  have "waiting (crossing_run (Suc (Suc 0))) \<noteq> []" by code_simp
  from solver_next [OF r2 this] have "?R (crossing_run (Suc (Suc (Suc 0))))"
    by (simp only: crossing_run_Suc)
  then show ?thesis by (simp only: numeral_3_eq_3)
qed

lemma family_run_reachable:
  "cost_reachable (family_space depth_cost) cost_less id goal (family_run 3)"
proof -
  let ?R = "cost_reachable (family_space depth_cost) cost_less id goal"
  have r0: "?R (family_run 0)" unfolding family_run_def funpow_0 by (rule cost_start)
  have "waiting (family_run 0) \<noteq> []" by code_simp
  from cost_next [OF r0 this] have r1: "?R (family_run (Suc 0))"
    by (simp only: family_run_Suc)
  have "waiting (family_run (Suc 0)) \<noteq> []" by code_simp
  from cost_next [OF r1 this] have r2: "?R (family_run (Suc (Suc 0)))"
    by (simp only: family_run_Suc)
  have "waiting (family_run (Suc (Suc 0))) \<noteq> []" by code_simp
  from cost_next [OF r2 this] have "?R (family_run (Suc (Suc (Suc 0))))"
    by (simp only: family_run_Suc)
  then show ?thesis by (simp only: numeral_3_eq_3)
qed

section \<open>The properties\<close>

text \<open>
  C5. Each state is expanded at most once: the arguments of the calls of the transition
  generator, in the order of the calls, are pairwise distinct in every state of the loop, in
  the solver without cost (in both search orders) and in the solver with cost, however many
  frontier nodes hold the same state.
\<close>

theorem expanded_at_most_once:
  "(solver_reachable cfg isGoalState order st \<longrightarrow> distinct (expanded st)) \<and>
   (cost_reachable cfg' lt addr isGoalState' st' \<longrightarrow> distinct (expanded st'))"
  using engine_expanded_passed [OF solver_reachable_engine, of cfg isGoalState order st]
    engine_expanded_passed [OF cost_reachable_engine, of cfg' lt addr isGoalState' st']
  by (simp add: nodes_view_simps)

theorem expanded_at_most_once_witness:
  "distinct (expanded (crossing_run 3)) \<and> distinct (expanded (family_run 3))"
  using expanded_at_most_once [of crossing_space crossing_goal breadth_first "crossing_run 3"
      "family_space depth_cost" cost_less id goal "family_run 3"]
    crossing_run_reachable family_run_reachable
  by (rule_tac conjI) (erule conjE, erule mp, assumption)+

end
